theory Spec2Isabelle
  imports Main "HOL-Library.AList"
begin

section \<open>Outcomes of a call\<close>

text \<open>
  A call of one of the container's methods either returns a value, panics, or never
  returns because it waits for a lock that nobody will release. A run-time panic of Go
  is a value of \<open>fault\<close>; the state after the deferred calls have run is kept, since a
  caller may recover from the panic and look at the container again.
\<close>

datatype fault =
    IndexOutOfRange
  | SliceBoundsOutOfRange
  | AssignmentToNilMap
  | UnlockOfUnlockedMutex

datatype ('a, 's) outcome =
    Returned 'a 's
  | Panicked fault 's
  | Blocked

text \<open>
  \<open>defer f()\<close>: \<open>f\<close> runs when the body returns and also when it panics. A deferred
  call is a state transformer that may itself fail (\<open>None\<close>).
\<close>

definition deferred :: "('s \<Rightarrow> 's option) \<Rightarrow> ('a, 's) outcome \<Rightarrow> ('a, 's) outcome" where
  "deferred d r =
     (case r of
        Returned x s \<Rightarrow>
          (case d s of Some s' \<Rightarrow> Returned x s' | None \<Rightarrow> Panicked UnlockOfUnlockedMutex s)
      | Panicked f s \<Rightarrow>
          (case d s of Some s' \<Rightarrow> Panicked f s' | None \<Rightarrow> Panicked UnlockOfUnlockedMutex s)
      | Blocked \<Rightarrow> Blocked)"

section \<open>sync.Mutex\<close>

text \<open>
  A \<open>sync.Mutex\<close> is held or free; it is not reentrant. \<open>Lock\<close> on a held mutex waits
  until it is released: with no other goroutine to release it, the caller waits for ever
  (\<open>None\<close>). \<open>Unlock\<close> on a free mutex is a fatal error of the runtime (\<open>None\<close>).
\<close>

type_synonym Mutex = bool

definition mutex_Lock :: "Mutex \<Rightarrow> Mutex option" where
  "mutex_Lock held = (if held then None else Some True)"

definition mutex_Unlock :: "Mutex \<Rightarrow> Mutex option" where
  "mutex_Unlock held = (if held then Some False else None)"

section \<open>Go maps\<close>

text \<open>
  A value of type \<open>map[K]V\<close> is a reference: \<open>nil\<close>, or the address of a map object
  in memory. The memory is the list of the map objects allocated so far, and an address is
  a position in it, so \<open>make\<close> allocates at the end. A map object is the list of its
  entries, with distinct keys; the order of the list stands for the order in which
  \<open>range\<close> visits the entries, about which nothing is assumed.
\<close>

type_synonym addr = nat

type_synonym ('k, 'v) mapobj = "('k \<times> 'v) list"

definition map_make :: "('k, 'v) mapobj list \<Rightarrow> addr \<times> ('k, 'v) mapobj list" where
  "map_make h = (length h, h @ [[]])"

definition map_entries :: "('k, 'v) mapobj list \<Rightarrow> addr option \<Rightarrow> ('k, 'v) mapobj" where
  "map_entries h r = (case r of None \<Rightarrow> [] | Some a \<Rightarrow> h ! a)"

text \<open>\<open>v, ok := m[key]\<close>; on a nil map every key is absent.\<close>

definition map_index :: "'v \<Rightarrow> ('k, 'v) mapobj list \<Rightarrow> addr option \<Rightarrow> 'k \<Rightarrow> 'v \<times> bool" where
  "map_index zero h r key =
     (case map_of (map_entries h r) key of None \<Rightarrow> (zero, False) | Some v \<Rightarrow> (v, True))"

text \<open>\<open>m[key] = value\<close>; panics on a nil map.\<close>

definition map_assign ::
  "('k, 'v) mapobj list \<Rightarrow> addr option \<Rightarrow> 'k \<Rightarrow> 'v \<Rightarrow> ('k, 'v) mapobj list option" where
  "map_assign h r key val =
     (case r of None \<Rightarrow> None | Some a \<Rightarrow> Some (h[a := AList.update key val (h ! a)]))"

text \<open>\<open>delete(m, key)\<close>; a no-op on a nil map.\<close>

definition map_delete :: "('k, 'v) mapobj list \<Rightarrow> addr option \<Rightarrow> 'k \<Rightarrow> ('k, 'v) mapobj list" where
  "map_delete h r key =
     (case r of None \<Rightarrow> h | Some a \<Rightarrow> h[a := AList.delete key (h ! a)])"

text \<open>\<open>len(m)\<close>; 0 on a nil map.\<close>

definition map_len :: "('k, 'v) mapobj list \<Rightarrow> addr option \<Rightarrow> int" where
  "map_len h r = int (length (map_entries h r))"

section \<open>Map (map.go, lines 1 to 127)\<close>

text \<open>
  The struct has the fields \<open>Data\<close> and \<open>lock\<close>; \<open>mheap\<close> is the memory that \<open>Data\<close>
  points into. It is part of the state because \<open>Data\<close> is exported: a caller may hold
  the same reference.
\<close>

record ('k, 'v) Map =
  mheap :: "('k, 'v) mapobj list"
  Data :: "addr option"
  lock :: Mutex

definition Map_Lock :: "('k, 'v) Map \<Rightarrow> ('k, 'v) Map option" where
  "Map_Lock m = map_option (\<lambda>l. m\<lparr>Map.lock := l\<rparr>) (mutex_Lock (Map.lock m))"

definition Map_Unlock :: "('k, 'v) Map \<Rightarrow> ('k, 'v) Map option" where
  "Map_Unlock m = map_option (\<lambda>l. m\<lparr>Map.lock := l\<rparr>) (mutex_Unlock (Map.lock m))"

text \<open>The zero value of the struct, \<open>var m Map[K, V]\<close>: \<open>Data\<close> is nil, the lock is free.\<close>

definition Map_zero :: "('k, 'v) mapobj list \<Rightarrow> ('k, 'v) Map" where
  "Map_zero h = \<lparr>mheap = h, Data = None, lock = False\<rparr>"

definition NewMap :: "('k, 'v) mapobj list \<Rightarrow> ('k, 'v) Map" where
  "NewMap h = (let (a, h') = map_make h in \<lparr>mheap = h', Data = Some a, lock = False\<rparr>)"

definition Map_Get :: "'v \<Rightarrow> 'k \<Rightarrow> ('k, 'v) Map \<Rightarrow> ('v \<times> bool, ('k, 'v) Map) outcome" where
  "Map_Get zero key m =
     (case Map_Lock m of
        None \<Rightarrow> Blocked
      | Some m1 \<Rightarrow> deferred Map_Unlock
          (let (v, ok) = map_index zero (mheap m1) (Map.Data m1) key
           in Returned (v, ok) m1))"

definition Map_Set :: "'k \<Rightarrow> 'v \<Rightarrow> ('k, 'v) Map \<Rightarrow> (unit, ('k, 'v) Map) outcome" where
  "Map_Set key val m =
     (case Map_Lock m of
        None \<Rightarrow> Blocked
      | Some m1 \<Rightarrow> deferred Map_Unlock
          (case map_assign (mheap m1) (Map.Data m1) key val of
             None \<Rightarrow> Panicked AssignmentToNilMap m1
           | Some h \<Rightarrow> Returned () (m1\<lparr>mheap := h\<rparr>)))"

definition Map_Delete :: "'v \<Rightarrow> 'k \<Rightarrow> ('k, 'v) Map \<Rightarrow> (unit, ('k, 'v) Map) outcome" where
  "Map_Delete zero key m =
     (case Map_Lock m of
        None \<Rightarrow> Blocked
      | Some m1 \<Rightarrow> deferred Map_Unlock
          (let (_, ok) = map_index zero (mheap m1) (Map.Data m1) key
           in if ok then Returned () (m1\<lparr>mheap := map_delete (mheap m1) (Map.Data m1) key\<rparr>)
              else Returned () m1))"

text \<open>
  \<open>Pull\<close> calls \<open>m.Delete(key)\<close> between its own \<open>Lock\<close> and the deferred \<open>Unlock\<close>,
  so \<open>Delete\<close> runs on the state in which \<open>Pull\<close> holds the mutex.
\<close>

definition Map_Pull :: "'v \<Rightarrow> 'k \<Rightarrow> ('k, 'v) Map \<Rightarrow> ('v \<times> bool, ('k, 'v) Map) outcome" where
  "Map_Pull zero key m =
     (case Map_Lock m of
        None \<Rightarrow> Blocked
      | Some m1 \<Rightarrow> deferred Map_Unlock
          (let (v, ok) = map_index zero (mheap m1) (Map.Data m1) key
           in if \<not> ok then Returned (v, ok) m1
              else (case Map_Delete zero key m1 of
                      Returned _ m2 \<Rightarrow> Returned (v, ok) m2
                    | Panicked f m2 \<Rightarrow> Panicked f m2
                    | Blocked \<Rightarrow> Blocked)))"

text \<open>
  The loops of \<open>Keys\<close>, \<open>Values\<close> and \<open>Items\<close>: each entry that \<open>range\<close> visits is
  stored at \<open>index\<close>, and \<open>index\<close> is incremented. A store beyond the length of the
  slice made before the loop would panic (\<open>None\<close>).
\<close>

fun Keys_loop :: "'k list \<Rightarrow> nat \<Rightarrow> ('k, 'v) mapobj \<Rightarrow> 'k list option" where
  "Keys_loop keys index [] = Some keys"
| "Keys_loop keys index ((k, v) # rest) =
     (if index < length keys then Keys_loop (keys[index := k]) (index + 1) rest else None)"

fun Values_loop :: "'v list \<Rightarrow> nat \<Rightarrow> ('k, 'v) mapobj \<Rightarrow> 'v list option" where
  "Values_loop vals index [] = Some vals"
| "Values_loop vals index ((k, v) # rest) =
     (if index < length vals then Values_loop (vals[index := v]) (index + 1) rest else None)"

fun Items_loop :: "'k list \<Rightarrow> 'v list \<Rightarrow> nat \<Rightarrow> ('k, 'v) mapobj \<Rightarrow> ('k list \<times> 'v list) option" where
  "Items_loop keys vals index [] = Some (keys, vals)"
| "Items_loop keys vals index ((k, v) # rest) =
     (if index < length keys
      then (if index < length vals
            then Items_loop (keys[index := k]) (vals[index := v]) (index + 1) rest
            else None)
      else None)"

text \<open>
  The slices that \<open>Keys\<close>, \<open>Values\<close> and \<open>Items\<close> return are made inside the call and
  shared with nothing, so they are returned as the lists of their elements.
  \<open>make([]K, n)\<close> holds \<open>n\<close> zero values.
\<close>

definition Map_Keys :: "'k \<Rightarrow> ('k, 'v) Map \<Rightarrow> ('k list, ('k, 'v) Map) outcome" where
  "Map_Keys zeroK m =
     (case Map_Lock m of
        None \<Rightarrow> Blocked
      | Some m1 \<Rightarrow> deferred Map_Unlock
          (let keys = replicate (nat (map_len (mheap m1) (Map.Data m1))) zeroK
           in case Keys_loop keys 0 (map_entries (mheap m1) (Map.Data m1)) of
                None \<Rightarrow> Panicked IndexOutOfRange m1
              | Some keys' \<Rightarrow> Returned keys' m1))"

definition Map_Values :: "'v \<Rightarrow> ('k, 'v) Map \<Rightarrow> ('v list, ('k, 'v) Map) outcome" where
  "Map_Values zeroV m =
     (case Map_Lock m of
        None \<Rightarrow> Blocked
      | Some m1 \<Rightarrow> deferred Map_Unlock
          (let vals = replicate (nat (map_len (mheap m1) (Map.Data m1))) zeroV
           in case Values_loop vals 0 (map_entries (mheap m1) (Map.Data m1)) of
                None \<Rightarrow> Panicked IndexOutOfRange m1
              | Some vals' \<Rightarrow> Returned vals' m1))"

definition Map_Items :: "'k \<Rightarrow> 'v \<Rightarrow> ('k, 'v) Map \<Rightarrow> ('k list \<times> 'v list, ('k, 'v) Map) outcome" where
  "Map_Items zeroK zeroV m =
     (case Map_Lock m of
        None \<Rightarrow> Blocked
      | Some m1 \<Rightarrow> deferred Map_Unlock
          (let keys = replicate (nat (map_len (mheap m1) (Map.Data m1))) zeroK;
               vals = replicate (nat (map_len (mheap m1) (Map.Data m1))) zeroV
           in case Items_loop keys vals 0 (map_entries (mheap m1) (Map.Data m1)) of
                None \<Rightarrow> Panicked IndexOutOfRange m1
              | Some kv \<Rightarrow> Returned kv m1))"

definition Map_Empty :: "('k, 'v) Map \<Rightarrow> (unit, ('k, 'v) Map) outcome" where
  "Map_Empty m =
     (case Map_Lock m of
        None \<Rightarrow> Blocked
      | Some m1 \<Rightarrow> deferred Map_Unlock
          (let m2 = m1\<lparr>Map.Data := None\<rparr>;
               (a, h) = map_make (mheap m2)
           in Returned () (m2\<lparr>mheap := h, Map.Data := Some a\<rparr>)))"

definition Map_Len :: "('k, 'v) Map \<Rightarrow> (int, ('k, 'v) Map) outcome" where
  "Map_Len m =
     (case Map_Lock m of
        None \<Rightarrow> Blocked
      | Some m1 \<Rightarrow> deferred Map_Unlock
          (Returned (map_len (mheap m1) (Map.Data m1)) m1))"

text \<open>
  A map is constructed when \<open>Data\<close> points to a map object, as after \<open>NewMap\<close>; the
  entries of a map are those of the object \<open>Data\<close> points to.
\<close>

definition constructed :: "('k, 'v) Map \<Rightarrow> bool" where
  "constructed m = (case Map.Data m of None \<Rightarrow> False | Some a \<Rightarrow> a < length (mheap m))"

definition Map_entries :: "('k, 'v) Map \<Rightarrow> ('k, 'v) mapobj" where
  "Map_entries m = map_entries (mheap m) (Map.Data m)"

section \<open>sync.RWMutex\<close>

text \<open>
  A \<open>sync.RWMutex\<close> is held by one writer, or by a number of readers, or free.
  \<open>RLock\<close> waits while a writer holds it, \<open>Lock\<close> waits while anybody holds it
  (\<open>None\<close>: nobody else will release it). \<open>RUnlock\<close> without a reader and
  \<open>Unlock\<close> without the writer are fatal errors of the runtime (\<open>None\<close>).
\<close>

record RWMutex =
  readers :: nat
  writer :: bool

definition rw_RLock :: "RWMutex \<Rightarrow> RWMutex option" where
  "rw_RLock l = (if writer l then None else Some (l\<lparr>readers := readers l + 1\<rparr>))"

definition rw_RUnlock :: "RWMutex \<Rightarrow> RWMutex option" where
  "rw_RUnlock l = (if readers l = 0 then None else Some (l\<lparr>readers := readers l - 1\<rparr>))"

definition rw_Lock :: "RWMutex \<Rightarrow> RWMutex option" where
  "rw_Lock l = (if writer l \<or> 0 < readers l then None else Some (l\<lparr>writer := True\<rparr>))"

definition rw_Unlock :: "RWMutex \<Rightarrow> RWMutex option" where
  "rw_Unlock l = (if writer l then Some (l\<lparr>writer := False\<rparr>) else None)"

section \<open>Go slices\<close>

text \<open>
  A value of type \<open>[]T\<close> is a header: the backing array it points to, the offset of
  its first element in that array, its length and its capacity. The memory is the list
  of the backing arrays allocated so far; an address is a position in it. The nil slice
  has length and capacity 0. Two headers with the same array share their elements.
\<close>

record slice =
  arr :: addr
  off :: nat
  len :: nat
  cap :: nat

definition nil_slice :: slice where
  "nil_slice = \<lparr>arr = 0, off = 0, len = 0, cap = 0\<rparr>"

text \<open>The elements of a slice, read from memory.\<close>

definition elems :: "'a list list \<Rightarrow> slice \<Rightarrow> 'a list" where
  "elems h s = take (len s) (drop (off s) (h ! arr s))"

text \<open>\<open>s[i]\<close> as a value; panics (\<open>None\<close>) unless \<open>0 <= i < len(s)\<close>.\<close>

definition slice_index :: "'a list list \<Rightarrow> slice \<Rightarrow> int \<Rightarrow> 'a option" where
  "slice_index h s i =
     (if 0 \<le> i \<and> i < int (len s) then Some (h ! arr s ! (off s + nat i)) else None)"

text \<open>\<open>s[i] = v\<close>; panics (\<open>None\<close>) unless \<open>0 <= i < len(s)\<close>.\<close>

definition slice_assign :: "'a list list \<Rightarrow> slice \<Rightarrow> int \<Rightarrow> 'a \<Rightarrow> 'a list list option" where
  "slice_assign h s i v =
     (if 0 \<le> i \<and> i < int (len s)
      then Some (h[arr s := (h ! arr s)[off s + nat i := v]])
      else None)"

text \<open>
  \<open>s[lo:hi]\<close>; panics (\<open>None\<close>) unless \<open>0 <= lo <= hi <= cap(s)\<close>. \<open>s[:i]\<close> is
  \<open>s[0:i]\<close> and \<open>s[i:]\<close> is \<open>s[i:len(s)]\<close>.
\<close>

definition slice_expr :: "slice \<Rightarrow> int \<Rightarrow> int \<Rightarrow> slice option" where
  "slice_expr s lo hi =
     (if 0 \<le> lo \<and> lo \<le> hi \<and> hi \<le> int (cap s)
      then Some \<lparr>arr = arr s, off = off s + nat lo, len = nat (hi - lo), cap = cap s - nat lo\<rparr>
      else None)"

text \<open>\<open>[]T{v}\<close>: a new array of one element.\<close>

definition slice_literal :: "'a list list \<Rightarrow> 'a \<Rightarrow> 'a list list \<times> slice" where
  "slice_literal h v = (h @ [[v]], \<lparr>arr = length h, off = 0, len = 1, cap = 1\<rparr>)"

text \<open>
  \<open>append(s, vs...)\<close>. When the capacity suffices the values are written into the
  backing array of \<open>s\<close>, behind its last element; otherwise a new and sufficiently large
  array is allocated, which holds the elements of \<open>s\<close>, the values, and zero values up to
  its capacity. How much larger than needed the new array is depends on the runtime:
  \<open>grow\<close> maps the old capacity and the needed length to a proposed capacity, and
  nothing is assumed about it. The values of a variadic argument \<open>t...\<close> are the elements
  of \<open>t\<close> read before anything is written.
\<close>

definition append_go ::
  "(nat \<Rightarrow> nat \<Rightarrow> nat) \<Rightarrow> 'a \<Rightarrow> 'a list list \<Rightarrow> slice \<Rightarrow> 'a list \<Rightarrow> 'a list list \<times> slice" where
  "append_go grow zero h s vs =
     (let n = len s + length vs
      in if n \<le> cap s
         then (h[arr s := take (off s + len s) (h ! arr s) @ vs @ drop (off s + n) (h ! arr s)],
               s\<lparr>len := n\<rparr>)
         else (let c = max n (grow (cap s) n)
               in (h @ [elems h s @ vs @ replicate (c - n) zero],
                   \<lparr>arr = length h, off = 0, len = n, cap = c\<rparr>)))"

text \<open>
  The statement \<open>s.Data = append(s.Data[:index], append([]T{v}, s.Data[index:]...)...)\<close>
  of \<open>Insert\<close> and \<open>SafeInsert\<close> on memory \<open>h\<close> and \<open>s.Data = d\<close>; the operands are
  evaluated from left to right. \<open>None\<close> is the panic of a slice expression.
\<close>

definition insert_stmt ::
  "(nat \<Rightarrow> nat \<Rightarrow> nat) \<Rightarrow> 'a \<Rightarrow> 'a list list \<Rightarrow> slice \<Rightarrow> int \<Rightarrow> 'a \<Rightarrow> ('a list list \<times> slice) option" where
  "insert_stmt grow zero h d index v =
     (case slice_expr d 0 index of
        None \<Rightarrow> None
      | Some front \<Rightarrow>
          (let (h1, lit) = slice_literal h v
           in case slice_expr d index (int (len d)) of
                None \<Rightarrow> None
              | Some back \<Rightarrow>
                  (let (h2, inner) = append_go grow zero h1 lit (elems h1 back)
                   in Some (append_go grow zero h2 front (elems h2 inner)))))"

text \<open>
  The statement \<open>s.Data = append(s.Data[:index], s.Data[index+1:]...)\<close> of \<open>Delete\<close>
  and \<open>SafeDelete\<close>. A length is at most the largest \<open>int\<close>, so \<open>index+1\<close> can only
  overflow where \<open>s.Data[:index]\<close> has already panicked.
\<close>

definition delete_stmt ::
  "(nat \<Rightarrow> nat \<Rightarrow> nat) \<Rightarrow> 'a \<Rightarrow> 'a list list \<Rightarrow> slice \<Rightarrow> int \<Rightarrow> ('a list list \<times> slice) option" where
  "delete_stmt grow zero h d index =
     (case slice_expr d 0 index of
        None \<Rightarrow> None
      | Some front \<Rightarrow>
          (case slice_expr d (index + 1) (int (len d)) of
             None \<Rightarrow> None
           | Some back \<Rightarrow> Some (append_go grow zero h front (elems h back))))"

text \<open>
  A header is well formed in a memory when its length is within its capacity and its
  capacity within its backing array. Every header that Go code can build is.
\<close>

definition slice_ok :: "'a list list \<Rightarrow> slice \<Rightarrow> bool" where
  "slice_ok h s =
     (len s \<le> cap s \<and> (cap s = 0 \<or> (arr s < length h \<and> off s + cap s \<le> length (h ! arr s))))"

text \<open>
  A memory \<open>h'\<close> preserves \<open>h\<close> when every array of \<open>h\<close> is in \<open>h'\<close> at the same
  address with the same elements: what an allocation does to the memory.
\<close>

definition preserves :: "'a list list \<Rightarrow> 'a list list \<Rightarrow> bool" where
  "preserves h h' = (length h \<le> length h' \<and> (\<forall>a < length h. h' ! a = h ! a))"

section \<open>Slice with a sync.Mutex (slice.go, lines 1 to 129)\<close>

record 'a Slice =
  sheap :: "'a list list"
  Data :: slice
  lock :: Mutex

definition Slice_Lock :: "'a Slice \<Rightarrow> 'a Slice option" where
  "Slice_Lock s = map_option (\<lambda>l. s\<lparr>Slice.lock := l\<rparr>) (mutex_Lock (Slice.lock s))"

definition Slice_Unlock :: "'a Slice \<Rightarrow> 'a Slice option" where
  "Slice_Unlock s = map_option (\<lambda>l. s\<lparr>Slice.lock := l\<rparr>) (mutex_Unlock (Slice.lock s))"

text \<open>The zero value of the struct: \<open>Data\<close> is the nil slice, the lock is free.\<close>

definition Slice_zero :: "'a list list \<Rightarrow> 'a Slice" where
  "Slice_zero h = \<lparr>sheap = h, Data = nil_slice, lock = False\<rparr>"

definition Slice_Append ::
  "(nat \<Rightarrow> nat \<Rightarrow> nat) \<Rightarrow> 'a \<Rightarrow> 'a \<Rightarrow> 'a Slice \<Rightarrow> (unit, 'a Slice) outcome" where
  "Slice_Append grow zero v s =
     (case Slice_Lock s of
        None \<Rightarrow> Blocked
      | Some s1 \<Rightarrow> deferred Slice_Unlock
          (let (h, d) = append_go grow zero (sheap s1) (Slice.Data s1) [v]
           in Returned () (s1\<lparr>sheap := h, Slice.Data := d\<rparr>)))"

definition Slice_Insert ::
  "(nat \<Rightarrow> nat \<Rightarrow> nat) \<Rightarrow> 'a \<Rightarrow> int \<Rightarrow> 'a \<Rightarrow> 'a Slice \<Rightarrow> (unit, 'a Slice) outcome" where
  "Slice_Insert grow zero index v s =
     (case Slice_Lock s of
        None \<Rightarrow> Blocked
      | Some s1 \<Rightarrow> deferred Slice_Unlock
          (case insert_stmt grow zero (sheap s1) (Slice.Data s1) index v of
             None \<Rightarrow> Panicked SliceBoundsOutOfRange s1
           | Some (h, d) \<Rightarrow> Returned () (s1\<lparr>sheap := h, Slice.Data := d\<rparr>)))"

text \<open>\<open>SafeInsert\<close> and \<open>SafeDelete\<close> check the index before they take the lock.\<close>

definition Slice_SafeInsert ::
  "(nat \<Rightarrow> nat \<Rightarrow> nat) \<Rightarrow> 'a \<Rightarrow> int \<Rightarrow> 'a \<Rightarrow> 'a Slice \<Rightarrow> (bool, 'a Slice) outcome" where
  "Slice_SafeInsert grow zero index v s =
     (if index < 0 \<or> index > int (len (Slice.Data s)) then Returned False s
      else (case Slice_Lock s of
              None \<Rightarrow> Blocked
            | Some s1 \<Rightarrow> deferred Slice_Unlock
                (case insert_stmt grow zero (sheap s1) (Slice.Data s1) index v of
                   None \<Rightarrow> Panicked SliceBoundsOutOfRange s1
                 | Some (h, d) \<Rightarrow> Returned True (s1\<lparr>sheap := h, Slice.Data := d\<rparr>))))"

definition Slice_Replace :: "int \<Rightarrow> 'a \<Rightarrow> 'a Slice \<Rightarrow> (unit, 'a Slice) outcome" where
  "Slice_Replace index v s =
     (case Slice_Lock s of
        None \<Rightarrow> Blocked
      | Some s1 \<Rightarrow> deferred Slice_Unlock
          (case slice_assign (sheap s1) (Slice.Data s1) index v of
             None \<Rightarrow> Panicked IndexOutOfRange s1
           | Some h \<Rightarrow> Returned () (s1\<lparr>sheap := h\<rparr>)))"

definition Slice_SafeReplace :: "int \<Rightarrow> 'a \<Rightarrow> 'a Slice \<Rightarrow> (bool, 'a Slice) outcome" where
  "Slice_SafeReplace index v s =
     (case Slice_Lock s of
        None \<Rightarrow> Blocked
      | Some s1 \<Rightarrow> deferred Slice_Unlock
          (if index < 0 \<or> index \<ge> int (len (Slice.Data s1)) then Returned False s1
           else (case slice_assign (sheap s1) (Slice.Data s1) index v of
                   None \<Rightarrow> Panicked IndexOutOfRange s1
                 | Some h \<Rightarrow> Returned True (s1\<lparr>sheap := h\<rparr>))))"

definition Slice_Get :: "int \<Rightarrow> 'a Slice \<Rightarrow> ('a, 'a Slice) outcome" where
  "Slice_Get index s =
     (case Slice_Lock s of
        None \<Rightarrow> Blocked
      | Some s1 \<Rightarrow> deferred Slice_Unlock
          (case slice_index (sheap s1) (Slice.Data s1) index of
             None \<Rightarrow> Panicked IndexOutOfRange s1
           | Some x \<Rightarrow> Returned x s1))"

text \<open>\<open>GetAll\<close> returns the header \<open>s.Data\<close> itself.\<close>

definition Slice_GetAll :: "'a Slice \<Rightarrow> (slice, 'a Slice) outcome" where
  "Slice_GetAll s =
     (case Slice_Lock s of
        None \<Rightarrow> Blocked
      | Some s1 \<Rightarrow> deferred Slice_Unlock (Returned (Slice.Data s1) s1))"

definition Slice_SafeGet :: "'a \<Rightarrow> int \<Rightarrow> 'a Slice \<Rightarrow> ('a \<times> bool, 'a Slice) outcome" where
  "Slice_SafeGet zero index s =
     (case Slice_Lock s of
        None \<Rightarrow> Blocked
      | Some s1 \<Rightarrow> deferred Slice_Unlock
          (if index < 0 \<or> index \<ge> int (len (Slice.Data s1)) then Returned (zero, False) s1
           else (case slice_index (sheap s1) (Slice.Data s1) index of
                   None \<Rightarrow> Panicked IndexOutOfRange s1
                 | Some x \<Rightarrow> Returned (x, True) s1)))"

definition Slice_Delete ::
  "(nat \<Rightarrow> nat \<Rightarrow> nat) \<Rightarrow> 'a \<Rightarrow> int \<Rightarrow> 'a Slice \<Rightarrow> (unit, 'a Slice) outcome" where
  "Slice_Delete grow zero index s =
     (case Slice_Lock s of
        None \<Rightarrow> Blocked
      | Some s1 \<Rightarrow> deferred Slice_Unlock
          (case delete_stmt grow zero (sheap s1) (Slice.Data s1) index of
             None \<Rightarrow> Panicked SliceBoundsOutOfRange s1
           | Some (h, d) \<Rightarrow> Returned () (s1\<lparr>sheap := h, Slice.Data := d\<rparr>)))"

definition Slice_SafeDelete ::
  "(nat \<Rightarrow> nat \<Rightarrow> nat) \<Rightarrow> 'a \<Rightarrow> int \<Rightarrow> 'a Slice \<Rightarrow> (bool, 'a Slice) outcome" where
  "Slice_SafeDelete grow zero index s =
     (if index < 0 \<or> index \<ge> int (len (Slice.Data s)) then Returned False s
      else (case Slice_Lock s of
              None \<Rightarrow> Blocked
            | Some s1 \<Rightarrow> deferred Slice_Unlock
                (case delete_stmt grow zero (sheap s1) (Slice.Data s1) index of
                   None \<Rightarrow> Panicked SliceBoundsOutOfRange s1
                 | Some (h, d) \<Rightarrow> Returned True (s1\<lparr>sheap := h, Slice.Data := d\<rparr>))))"

text \<open>\<open>Empty\<close> unlocks without \<open>defer\<close>.\<close>

definition Slice_Empty :: "'a Slice \<Rightarrow> (unit, 'a Slice) outcome" where
  "Slice_Empty s =
     (case Slice_Lock s of
        None \<Rightarrow> Blocked
      | Some s1 \<Rightarrow>
          (let s2 = s1\<lparr>Slice.Data := nil_slice\<rparr>
           in case Slice_Unlock s2 of
                None \<Rightarrow> Panicked UnlockOfUnlockedMutex s2
              | Some s3 \<Rightarrow> Returned () s3))"

fun IndexFunc_loop :: "('a \<Rightarrow> bool) \<Rightarrow> int \<Rightarrow> 'a list \<Rightarrow> int" where
  "IndexFunc_loop f i [] = -1"
| "IndexFunc_loop f i (v # rest) = (if f v then i else IndexFunc_loop f (i + 1) rest)"

definition Slice_IndexFunc :: "('a \<Rightarrow> bool) \<Rightarrow> 'a Slice \<Rightarrow> (int, 'a Slice) outcome" where
  "Slice_IndexFunc f s =
     (case Slice_Lock s of
        None \<Rightarrow> Blocked
      | Some s1 \<Rightarrow> deferred Slice_Unlock
          (Returned (IndexFunc_loop f 0 (elems (sheap s1) (Slice.Data s1))) s1))"

definition Slice_Len :: "'a Slice \<Rightarrow> (int, 'a Slice) outcome" where
  "Slice_Len s =
     (case Slice_Lock s of
        None \<Rightarrow> Blocked
      | Some s1 \<Rightarrow> deferred Slice_Unlock (Returned (int (len (Slice.Data s1))) s1))"

definition Slice_elems :: "'a Slice \<Rightarrow> 'a list" where
  "Slice_elems s = elems (sheap s) (Slice.Data s)"

definition Slice_ok :: "'a Slice \<Rightarrow> bool" where
  "Slice_ok s = slice_ok (sheap s) (Slice.Data s)"

section \<open>Slice with a sync.RWMutex (slice.go, lines 130 to 239)\<close>

text \<open>
  The second variant of the type guards \<open>Data\<close> with a \<open>sync.RWMutex\<close>. Its \<open>Insert\<close>
  takes a \<open>uint\<close> and stores at the index; the same \<open>Insert\<close>, \<open>Get\<close>, \<open>GetAll\<close>
  and \<open>SafeGet\<close> are in map.go, lines 222 to 311.
\<close>

record 'a RWSlice =
  rheap :: "'a list list"
  Data :: slice
  lock :: RWMutex

definition RWSlice_RLock :: "'a RWSlice \<Rightarrow> 'a RWSlice option" where
  "RWSlice_RLock s = map_option (\<lambda>l. s\<lparr>RWSlice.lock := l\<rparr>) (rw_RLock (RWSlice.lock s))"

definition RWSlice_RUnlock :: "'a RWSlice \<Rightarrow> 'a RWSlice option" where
  "RWSlice_RUnlock s = map_option (\<lambda>l. s\<lparr>RWSlice.lock := l\<rparr>) (rw_RUnlock (RWSlice.lock s))"

definition RWSlice_Lock :: "'a RWSlice \<Rightarrow> 'a RWSlice option" where
  "RWSlice_Lock s = map_option (\<lambda>l. s\<lparr>RWSlice.lock := l\<rparr>) (rw_Lock (RWSlice.lock s))"

definition RWSlice_Unlock :: "'a RWSlice \<Rightarrow> 'a RWSlice option" where
  "RWSlice_Unlock s = map_option (\<lambda>l. s\<lparr>RWSlice.lock := l\<rparr>) (rw_Unlock (RWSlice.lock s))"

definition RWSlice_Insert :: "nat \<Rightarrow> 'a \<Rightarrow> 'a RWSlice \<Rightarrow> (unit, 'a RWSlice) outcome" where
  "RWSlice_Insert index v s =
     (case RWSlice_Lock s of
        None \<Rightarrow> Blocked
      | Some s1 \<Rightarrow> deferred RWSlice_Unlock
          (case slice_assign (rheap s1) (RWSlice.Data s1) (int index) v of
             None \<Rightarrow> Panicked IndexOutOfRange s1
           | Some h \<Rightarrow> Returned () (s1\<lparr>rheap := h\<rparr>)))"

text \<open>
  \<open>SafeInsert\<close> uses no \<open>defer\<close>: it returns false between \<open>RLock\<close> and \<open>RUnlock\<close>,
  and stores between \<open>Lock\<close> and \<open>Unlock\<close>.
\<close>

definition RWSlice_SafeInsert :: "int \<Rightarrow> 'a \<Rightarrow> 'a RWSlice \<Rightarrow> (bool, 'a RWSlice) outcome" where
  "RWSlice_SafeInsert index v s =
     (case RWSlice_RLock s of
        None \<Rightarrow> Blocked
      | Some s1 \<Rightarrow>
          (if index \<ge> int (len (RWSlice.Data s1)) then Returned False s1
           else (case RWSlice_RUnlock s1 of
                   None \<Rightarrow> Panicked UnlockOfUnlockedMutex s1
                 | Some s2 \<Rightarrow>
                     (case RWSlice_Lock s2 of
                        None \<Rightarrow> Blocked
                      | Some s3 \<Rightarrow>
                          (case slice_assign (rheap s3) (RWSlice.Data s3) index v of
                             None \<Rightarrow> Panicked IndexOutOfRange s3
                           | Some h \<Rightarrow>
                               (let s4 = s3\<lparr>rheap := h\<rparr>
                                in case RWSlice_Unlock s4 of
                                     None \<Rightarrow> Panicked UnlockOfUnlockedMutex s4
                                   | Some s5 \<Rightarrow> Returned True s5))))))"

definition RWSlice_Get :: "int \<Rightarrow> 'a RWSlice \<Rightarrow> ('a, 'a RWSlice) outcome" where
  "RWSlice_Get index s =
     (case RWSlice_RLock s of
        None \<Rightarrow> Blocked
      | Some s1 \<Rightarrow> deferred RWSlice_RUnlock
          (case slice_index (rheap s1) (RWSlice.Data s1) index of
             None \<Rightarrow> Panicked IndexOutOfRange s1
           | Some x \<Rightarrow> Returned x s1))"

definition RWSlice_GetAll :: "'a RWSlice \<Rightarrow> (slice, 'a RWSlice) outcome" where
  "RWSlice_GetAll s =
     (case RWSlice_RLock s of
        None \<Rightarrow> Blocked
      | Some s1 \<Rightarrow> deferred RWSlice_RUnlock (Returned (RWSlice.Data s1) s1))"

definition RWSlice_SafeGet :: "'a \<Rightarrow> int \<Rightarrow> 'a RWSlice \<Rightarrow> ('a \<times> bool, 'a RWSlice) outcome" where
  "RWSlice_SafeGet zero index s =
     (case RWSlice_RLock s of
        None \<Rightarrow> Blocked
      | Some s1 \<Rightarrow> deferred RWSlice_RUnlock
          (if index > int (len (RWSlice.Data s1)) then Returned (zero, False) s1
           else (case slice_index (rheap s1) (RWSlice.Data s1) index of
                   None \<Rightarrow> Panicked IndexOutOfRange s1
                 | Some x \<Rightarrow> Returned (x, True) s1)))"

definition RWSlice_Len :: "'a RWSlice \<Rightarrow> (int, 'a RWSlice) outcome" where
  "RWSlice_Len s =
     (case RWSlice_RLock s of
        None \<Rightarrow> Blocked
      | Some s1 \<Rightarrow> deferred RWSlice_RUnlock (Returned (int (len (RWSlice.Data s1))) s1))"

definition RWSlice_elems :: "'a RWSlice \<Rightarrow> 'a list" where
  "RWSlice_elems s = elems (rheap s) (RWSlice.Data s)"

definition RWSlice_ok :: "'a RWSlice \<Rightarrow> bool" where
  "RWSlice_ok s = slice_ok (rheap s) (RWSlice.Data s)"

definition rw_free :: "RWMutex \<Rightarrow> bool" where
  "rw_free l = (readers l = 0 \<and> \<not> writer l)"

section \<open>Properties of Map\<close>

lemmas Map_unfold =
  Map_Lock_def Map_Unlock_def mutex_Lock_def mutex_Unlock_def deferred_def
  map_index_def map_entries_def Map_entries_def

lemma Map_Get_absent:
  "\<not> Map.lock m \<Longrightarrow> map_of (Map_entries m) K = None \<Longrightarrow> Map_Get z K m = Returned (z, False) m"
  by (simp add: Map_Get_def Map_unfold)

lemma Map_Get_present:
  "\<not> Map.lock m \<Longrightarrow> map_of (Map_entries m) K = Some v \<Longrightarrow> Map_Get z K m = Returned (v, True) m"
  by (simp add: Map_Get_def Map_unfold)

lemma Map_Set_constructed:
  "\<not> Map.lock m \<Longrightarrow> Map.Data m = Some a \<Longrightarrow>
   Map_Set K v m = Returned () (m\<lparr>mheap := (mheap m)[a := AList.update K v (mheap m ! a)]\<rparr>)"
  by (simp add: Map_Set_def Map_unfold map_assign_def)

lemma Map_Delete_held: "Map.lock m \<Longrightarrow> Map_Delete z K m = Blocked"
  by (simp add: Map_Delete_def Map_unfold)

text \<open>
  The half of \<open>Pull\<close> that works: an absent key gives the zero value and false, and the
  map is as before.
\<close>

lemma Map_Pull_absent:
  "\<not> Map.lock m \<Longrightarrow> map_of (Map_entries m) K = None \<Longrightarrow> Map_Pull z K m = Returned (z, False) m"
  by (simp add: Map_Pull_def Map_unfold)

text \<open>\<open>NewMap\<close> constructs a map, and \<open>Set\<close> keeps it constructed.\<close>

lemma NewMap_constructed: "constructed (NewMap h) \<and> \<not> Map.lock (NewMap h) \<and> Map_entries (NewMap h) = []"
  by (simp add: NewMap_def map_make_def constructed_def Map_entries_def map_entries_def)

lemma Map_Set_keeps_constructed:
  "\<not> Map.lock m \<Longrightarrow> constructed m \<Longrightarrow> Map_Set K v m = Returned u m' \<Longrightarrow>
   constructed m' \<and> \<not> Map.lock m'"
  by (auto simp: constructed_def Map_Set_constructed split: option.splits)

text \<open>The loop of \<open>Keys\<close> never stores out of range: it returns the keys in the order visited.\<close>

lemma Keys_loop_fills:
  "index + length es = length keys \<Longrightarrow> Keys_loop keys index es = Some (take index keys @ map fst es)"
proof (induction keys index es rule: Keys_loop.induct)
  case (1 keys index)
  then show ?case by simp
next
  case (2 keys index k v rest)
  then show ?case by (simp add: take_Suc_conv_app_nth)
qed

lemma Map_Keys_entries:
  "\<not> Map.lock m \<Longrightarrow> Map_Keys zk m = Returned (map fst (Map_entries m)) m"
  by (simp add: Map_Keys_def Map_unfold map_len_def Keys_loop_fills)

text \<open>
  C6. On a map whose lock is free, \<open>Get\<close> of a key that is not present returns the zero
  value and false and leaves the map as it is; and on a constructed map (\<open>Data\<close> is not
  nil, as after \<open>NewMap\<close>), \<open>Set(K, v)\<close> returns and a \<open>Get(K)\<close> after it returns \<open>v\<close>
  and true.
\<close>

theorem Map_Get_after_Set:
  assumes "\<not> Map.lock m"
  shows "(map_of (Map_entries m) K = None \<longrightarrow> Map_Get z K m = Returned (z, False) m) \<and>
         (constructed m \<longrightarrow>
            (\<exists>m'. Map_Set K v m = Returned () m' \<and> Map_Get z K m' = Returned (v, True) m'))"
proof (intro conjI impI)
  assume "map_of (Map_entries m) K = None"
  with assms show "Map_Get z K m = Returned (z, False) m" by (rule Map_Get_absent)
next
  assume "constructed m"
  then obtain a where a: "Map.Data m = Some a" "a < length (mheap m)"
    by (auto simp: constructed_def split: option.splits)
  let ?m' = "m\<lparr>mheap := (mheap m)[a := AList.update K v (mheap m ! a)]\<rparr>"
  have "Map_Set K v m = Returned () ?m'"
    using assms a by (simp add: Map_Set_constructed)
  moreover have "Map_Get z K ?m' = Returned (v, True) ?m'"
    using assms a
    by (intro Map_Get_present) (simp_all add: Map_entries_def map_entries_def update_conv')
  ultimately show "\<exists>m'. Map_Set K v m = Returned () m' \<and> Map_Get z K m' = Returned (v, True) m'"
    by blast
qed

theorem Map_Get_after_Set_witness:
  "\<not> Map.lock \<lparr>mheap = [[(''a'', 1::int)]], Data = Some 0, lock = False\<rparr> \<and>
   map_of (Map_entries \<lparr>mheap = [[(''a'', 1::int)]], Data = Some 0, lock = False\<rparr>) ''b'' = None \<and>
   constructed \<lparr>mheap = [[(''a'', 1::int)]], Data = Some 0, lock = False\<rparr> \<and>
   Map_Get 0 ''b'' \<lparr>mheap = [[(''a'', 1::int)]], Data = Some 0, lock = False\<rparr>
     = Returned (0, False) \<lparr>mheap = [[(''a'', 1)]], Data = Some 0, lock = False\<rparr> \<and>
   (\<exists>m'. Map_Set ''b'' 2 \<lparr>mheap = [[(''a'', 1::int)]], Data = Some 0, lock = False\<rparr> = Returned () m' \<and>
         Map_Get 0 ''b'' m' = Returned (2, True) m')"
  using Map_Get_after_Set [of "\<lparr>mheap = [[(''a'', 1::int)]], Data = Some 0, lock = False\<rparr>" "''b''" 0 2]
  by (simp add: constructed_def Map_entries_def map_entries_def)

text \<open>
  C2. \<open>Set("a", 1)\<close> on a new map gives the map with the one entry; \<open>Get("a")\<close> on it
  returns 1 and true; \<open>Pull("a")\<close> on it does not return: \<open>Pull\<close> holds the mutex when
  it calls \<open>Delete\<close>, and \<open>Delete\<close> waits for the same mutex.
\<close>

theorem Map_Pull_present_example:
  "Map_Set ''a'' (1::int) (NewMap [])
     = Returned () \<lparr>mheap = [[(''a'', 1)]], Data = Some 0, lock = False\<rparr> \<and>
   Map_Get 0 ''a'' \<lparr>mheap = [[(''a'', 1::int)]], Data = Some 0, lock = False\<rparr>
     = Returned (1, True) \<lparr>mheap = [[(''a'', 1)]], Data = Some 0, lock = False\<rparr> \<and>
   Map_Pull 0 ''a'' \<lparr>mheap = [[(''a'', 1::int)]], Data = Some 0, lock = False\<rparr> = Blocked"
  by (simp add: Map_Set_def NewMap_def map_make_def map_assign_def Map_Pull_def Map_Get_def
      Map_Delete_def Map_unfold)

text \<open>
  C5. \<open>Pull\<close> of a key that is present, called on a map whose lock is free and with no
  other goroutine involved, never returns.
\<close>

theorem Map_Pull_present_blocks:
  "\<not> Map.lock m \<Longrightarrow> map_of (Map_entries m) K = Some v \<Longrightarrow> Map_Pull z K m = Blocked"
  by (simp add: Map_Pull_def Map_unfold Map_Delete_held)

theorem Map_Pull_present_blocks_witness:
  "\<not> Map.lock \<lparr>mheap = [[(''a'', 1::int), (''b'', 2)]], Data = Some 0, lock = False\<rparr> \<and>
   map_of (Map_entries \<lparr>mheap = [[(''a'', 1::int), (''b'', 2)]], Data = Some 0, lock = False\<rparr>) ''b''
     = Some 2 \<and>
   Map_Pull 0 ''b'' \<lparr>mheap = [[(''a'', 1::int), (''b'', 2)]], Data = Some 0, lock = False\<rparr> = Blocked"
  using Map_Pull_present_blocks
    [of "\<lparr>mheap = [[(''a'', 1::int), (''b'', 2)]], Data = Some 0, lock = False\<rparr>" "''b''" 2 0]
  by (simp add: Map_entries_def map_entries_def)

text \<open>
  C8. On a map whose lock is free, \<open>Empty\<close> returns; \<open>Len\<close> is then 0; \<open>Data\<close> points
  to a map object that did not exist before the call; every map object that existed
  before the call, so also the one \<open>Data\<close> pointed to, holds its entries as before; and
  a \<open>Set\<close> on the emptied map does not change them either.
\<close>

theorem Map_Empty_fresh:
  assumes "\<not> Map.lock m"
  shows "\<exists>m'. Map_Empty m = Returned () m' \<and> Map_Len m' = Returned 0 m' \<and>
           Map.Data m' = Some (length (mheap m)) \<and>
           (\<forall>a < length (mheap m). mheap m' ! a = mheap m ! a) \<and>
           (\<forall>K v. \<exists>m''. Map_Set K v m' = Returned () m'' \<and>
                     (\<forall>a < length (mheap m). mheap m'' ! a = mheap m ! a))"
  using assms
  by (simp add: Map_Empty_def Map_Len_def map_len_def map_make_def Map_Set_def map_assign_def
      Map_unfold nth_append)

theorem Map_Empty_fresh_witness:
  "\<not> Map.lock \<lparr>mheap = [[(''a'', 1::int), (''b'', 2)]], Data = Some 0, lock = False\<rparr> \<and>
   Map_Empty \<lparr>mheap = [[(''a'', 1::int), (''b'', 2)]], Data = Some 0, lock = False\<rparr>
     = Returned () \<lparr>mheap = [[(''a'', 1), (''b'', 2)], []], Data = Some 1, lock = False\<rparr> \<and>
   Map_Len \<lparr>mheap = [[(''a'', 1::int), (''b'', 2)], []], Data = Some 1, lock = False\<rparr>
     = Returned 0 \<lparr>mheap = [[(''a'', 1), (''b'', 2)], []], Data = Some 1, lock = False\<rparr>"
  using Map_Empty_fresh [of "\<lparr>mheap = [[(''a'', 1::int), (''b'', 2)]], Data = Some 0, lock = False\<rparr>"]
  by (simp add: Map_Empty_def Map_Len_def map_len_def map_make_def Map_unfold)

text \<open>
  C10. On the zero value of the struct, whatever the memory holds, \<open>Get\<close> returns the
  zero value and false, \<open>Len\<close> returns 0, \<open>Keys\<close> and \<open>Values\<close> return an empty slice
  and \<open>Items\<close> two empty slices, all leaving the map as it is; \<open>Set\<close> panics with an
  assignment to an entry in a nil map. On the result of \<open>NewMap\<close>, \<open>Set\<close> returns and
  the value can be read back.
\<close>

theorem Map_zero_value:
  "Map_Get z K (Map_zero h) = Returned (z, False) (Map_zero h) \<and>
   Map_Len (Map_zero h) = Returned 0 (Map_zero h) \<and>
   Map_Keys zk (Map_zero h) = Returned [] (Map_zero h) \<and>
   Map_Values z (Map_zero h) = Returned [] (Map_zero h) \<and>
   Map_Items zk z (Map_zero h) = Returned ([], []) (Map_zero h) \<and>
   Map_Set K v (Map_zero h) = Panicked AssignmentToNilMap (Map_zero h) \<and>
   (\<exists>m'. Map_Set K v (NewMap h) = Returned () m' \<and> Map_Get z K m' = Returned (v, True) m')"
  by (simp add: Map_zero_def NewMap_def map_make_def Map_Get_def Map_Len_def Map_Keys_def
      Map_Values_def Map_Items_def Map_Set_def map_len_def map_assign_def Map_unfold)

section \<open>Properties of Go slices\<close>


lemma length_elems: "slice_ok h s \<Longrightarrow> length (elems h s) = len s"
  by (auto simp: slice_ok_def elems_def)

lemma elems_nth:
  "slice_ok h s \<Longrightarrow> j < len s \<Longrightarrow> elems h s ! j = h ! arr s ! (off s + j)"
  by (auto simp: slice_ok_def elems_def)


lemma preserves_refl: "preserves h h"
  by (simp add: preserves_def)

lemma preserves_trans: "preserves h h1 \<Longrightarrow> preserves h1 h2 \<Longrightarrow> preserves h h2"
  by (auto simp: preserves_def)

lemma preserves_alloc: "preserves h (h @ ys)"
  by (simp add: preserves_def nth_append)

lemma preserves_elems: "slice_ok h s \<Longrightarrow> preserves h h' \<Longrightarrow> elems h' s = elems h s"
  by (auto simp: slice_ok_def elems_def preserves_def)

lemma preserves_ok: "slice_ok h s \<Longrightarrow> preserves h h' \<Longrightarrow> slice_ok h' s"
  by (auto simp: slice_ok_def preserves_def)

lemma slice_expr_prefix:
  assumes "slice_ok h d" "0 \<le> i" "i \<le> int (len d)"
  shows "\<exists>f. slice_expr d 0 i = Some f \<and> slice_ok h f \<and> arr f = arr d \<and>
             elems h f = take (nat i) (elems h d)"
  using assms
  by (auto simp: slice_expr_def slice_ok_def elems_def min_def)

lemma slice_expr_suffix:
  assumes "slice_ok h d" "0 \<le> i" "i \<le> int (len d)"
  shows "\<exists>b. slice_expr d i (int (len d)) = Some b \<and> slice_ok h b \<and> arr b = arr d \<and>
             elems h b = drop (nat i) (elems h d)"
  using assms
  by (auto simp: slice_expr_def slice_ok_def elems_def drop_take nat_diff_distrib add.commute)

lemma append_go_spec:
  assumes ok: "slice_ok h s" and ap: "append_go g z h s vs = (h', s')"
  shows "elems h' s' = elems h s @ vs \<and> slice_ok h' s' \<and> length h \<le> length h' \<and>
         (\<forall>a < length h. a \<noteq> arr s \<longrightarrow> h' ! a = h ! a)"
proof (cases "len s + length vs \<le> cap s")
  case False
  then have h': "h' = h @ [elems h s @ vs @ replicate (max (len s + length vs) (g (cap s) (len s + length vs)) - (len s + length vs)) z]"
    and s': "s' = \<lparr>arr = length h, off = 0, len = len s + length vs, cap = max (len s + length vs) (g (cap s) (len s + length vs))\<rparr>"
    using ap by (simp_all add: append_go_def Let_def)
  show ?thesis
    using length_elems [OF ok]
    by (simp add: h' s' elems_def slice_ok_def nth_append)
next
  case True
  then have h': "h' = h[arr s := take (off s + len s) (h ! arr s) @ vs @ drop (off s + (len s + length vs)) (h ! arr s)]"
    and s': "s' = s\<lparr>len := len s + length vs\<rparr>"
    using ap by (simp_all add: append_go_def Let_def)
  show ?thesis
  proof (cases "cap s = 0")
    case True
    with \<open>len s + length vs \<le> cap s\<close> have "vs = []" "len s = 0" by simp_all
    then show ?thesis
      using ok by (simp add: h' s' elems_def slice_ok_def)
  next
    case False
    with ok have a: "arr s < length h" and b: "off s + cap s \<le> length (h ! arr s)" and c: "len s \<le> cap s"
      by (auto simp: slice_ok_def)
    let ?A = "h ! arr s"
    have l1: "length (take (off s + len s) ?A) = off s + len s"
      using b c by simp
    have d1: "drop (off s) (take (off s + len s) ?A @ vs @ drop (off s + (len s + length vs)) ?A)
                = take (len s) (drop (off s) ?A) @ vs @ drop (off s + (len s + length vs)) ?A"
      using l1 by (simp add: drop_take)
    have l2: "length (take (len s) (drop (off s) ?A)) = len s"
      using b c by simp
    have "elems h' s' = take (len s + length vs)
            (drop (off s) (take (off s + len s) ?A @ vs @ drop (off s + (len s + length vs)) ?A))"
      using a by (simp add: h' s' elems_def)
    also have "\<dots> = take (len s + length vs)
            (take (len s) (drop (off s) ?A) @ vs @ drop (off s + (len s + length vs)) ?A)"
      by (simp only: d1)
    also have "\<dots> = take (len s) (drop (off s) ?A) @ vs"
      using l2 by simp
    finally have "elems h' s' = elems h s @ vs"
      by (simp add: elems_def)
    moreover have "slice_ok h' s'"
      using a b c True by (simp add: h' s' slice_ok_def)
    ultimately show ?thesis by (simp add: h')
  qed
qed


lemma insert_stmt_spec:
  assumes ok: "slice_ok h d" and i0: "0 \<le> i" and i1: "i \<le> int (len d)"
  shows "\<exists>h' d'. insert_stmt g z h d i v = Some (h', d') \<and> slice_ok h' d' \<and>
           elems h' d' = take (nat i) (elems h d) @ [v] @ drop (nat i) (elems h d)"
proof -
  obtain f where f: "slice_expr d 0 i = Some f" "slice_ok h f"
      "elems h f = take (nat i) (elems h d)"
    using slice_expr_prefix [OF ok i0 i1] by blast
  obtain b where b: "slice_expr d i (int (len d)) = Some b" "slice_ok h b"
      "elems h b = drop (nat i) (elems h d)"
    using slice_expr_suffix [OF ok i0 i1] by blast
  let ?h1 = "h @ [[v]]"
  let ?lit = "\<lparr>arr = length h, off = 0, len = 1, cap = 1\<rparr>"
  have lit: "slice_ok ?h1 ?lit" "elems ?h1 ?lit = [v]"
    by (simp_all add: slice_ok_def elems_def)
  have b1: "elems ?h1 b = drop (nat i) (elems h d)"
    using preserves_elems [OF b(2) preserves_alloc] b(3) by simp
  obtain h2 inner where ap1: "append_go g z ?h1 ?lit (elems ?h1 b) = (h2, inner)"
    by (cases "append_go g z ?h1 ?lit (elems ?h1 b)") blast
  from append_go_spec [OF lit(1) ap1]
  have in1: "elems h2 inner = [v] @ drop (nat i) (elems h d)"
    and len2: "length ?h1 \<le> length h2"
    and fr2: "\<forall>a < length ?h1. a \<noteq> length h \<longrightarrow> h2 ! a = ?h1 ! a"
    using lit(2) b1 by simp_all
  have p2: "preserves h h2"
    unfolding preserves_def using len2 fr2 by (auto simp: nth_append)
  have f2: "slice_ok h2 f" "elems h2 f = take (nat i) (elems h d)"
    using preserves_ok [OF f(2) p2] preserves_elems [OF f(2) p2] f(3) by simp_all
  obtain h3 res where ap2: "append_go g z h2 f (elems h2 inner) = (h3, res)"
    by (cases "append_go g z h2 f (elems h2 inner)") blast
  from append_go_spec [OF f2(1) ap2]
  have res: "elems h3 res = take (nat i) (elems h d) @ [v] @ drop (nat i) (elems h d)"
      "slice_ok h3 res"
    using f2(2) in1 by simp_all
  have "insert_stmt g z h d i v = Some (h3, res)"
    using f(1) b(1) ap1 ap2 by (simp add: insert_stmt_def slice_literal_def)
  with res show ?thesis by blast
qed

lemma slice_expr_after:
  assumes "slice_ok h d" "0 \<le> i" "i < int (len d)"
  shows "\<exists>b. slice_expr d (i + 1) (int (len d)) = Some b \<and>
             elems h b = drop (nat i + 1) (elems h d)"
  using slice_expr_suffix [of h d "i + 1"] assms by (auto simp: nat_add_distrib)

lemma delete_stmt_spec:
  assumes ok: "slice_ok h d" and i0: "0 \<le> i" and i1: "i < int (len d)"
  shows "\<exists>h' d'. delete_stmt g z h d i = Some (h', d') \<and> slice_ok h' d' \<and>
           elems h' d' = take (nat i) (elems h d) @ drop (nat i + 1) (elems h d)"
proof -
  from i1 have i1': "i \<le> int (len d)" by simp
  obtain f where f: "slice_expr d 0 i = Some f" "slice_ok h f"
      "elems h f = take (nat i) (elems h d)"
    using slice_expr_prefix [OF ok i0 i1'] by blast
  obtain b where b: "slice_expr d (i + 1) (int (len d)) = Some b"
      "elems h b = drop (nat i + 1) (elems h d)"
    using slice_expr_after [OF ok i0 i1] by blast
  obtain h' d' where ap: "append_go g z h f (elems h b) = (h', d')"
    by (cases "append_go g z h f (elems h b)") blast
  from append_go_spec [OF f(2) ap]
  have "elems h' d' = take (nat i) (elems h d) @ drop (nat i + 1) (elems h d)" "slice_ok h' d'"
    using f(3) b(2) by simp_all
  moreover have "delete_stmt g z h d i = Some (h', d')"
    using f(1) b(1) ap by (simp add: delete_stmt_def)
  ultimately show ?thesis by blast
qed

text \<open>Outside the range the statements panic.\<close>

lemma insert_stmt_panics:
  "slice_ok h d \<Longrightarrow> i < 0 \<or> int (len d) < i \<Longrightarrow> insert_stmt g z h d i v = None"
  by (auto simp: insert_stmt_def slice_expr_def slice_literal_def split: option.splits prod.splits)

lemma delete_stmt_panics:
  "slice_ok h d \<Longrightarrow> i < 0 \<or> int (len d) \<le> i \<Longrightarrow> delete_stmt g z h d i = None"
  by (auto simp: delete_stmt_def slice_expr_def split: option.splits)

lemmas Slice_unfold =
  Slice_Lock_def Slice_Unlock_def mutex_Lock_def mutex_Unlock_def deferred_def

lemma Slice_Len_free:
  "\<not> Slice.lock s \<Longrightarrow> Slice_Len s = Returned (int (len (Slice.Data s))) s"
  by (simp add: Slice_Len_def Slice_unfold)

lemma Slice_Get_elems:
  "Slice_ok s \<Longrightarrow> \<not> Slice.lock s \<Longrightarrow> 0 \<le> j \<Longrightarrow> j < int (len (Slice.Data s)) \<Longrightarrow>
   Slice_Get j s = Returned (Slice_elems s ! nat j) s"
  by (simp add: Slice_Get_def Slice_unfold slice_index_def Slice_ok_def Slice_elems_def elems_nth)

lemma Slice_Insert_spec:
  assumes "Slice_ok s" "\<not> Slice.lock s" "0 \<le> index" "index \<le> int (len (Slice.Data s))"
  shows "\<exists>s'. Slice_Insert g z index v s = Returned () s' \<and> Slice_ok s' \<and> \<not> Slice.lock s' \<and>
           Slice_elems s' = take (nat index) (Slice_elems s) @ [v] @ drop (nat index) (Slice_elems s)"
proof -
  from assms(1) have ok: "slice_ok (sheap s) (Slice.Data s)" by (simp add: Slice_ok_def)
  obtain h' d' where st: "insert_stmt g z (sheap s) (Slice.Data s) index v = Some (h', d')"
      "slice_ok h' d'"
      "elems h' d' = take (nat index) (elems (sheap s) (Slice.Data s)) @ [v] @
                     drop (nat index) (elems (sheap s) (Slice.Data s))"
    using insert_stmt_spec [OF ok assms(3,4)] by blast
  show ?thesis
    using assms(2) st by (simp add: Slice_Insert_def Slice_unfold Slice_ok_def Slice_elems_def)
qed

lemma Slice_Delete_spec:
  assumes "Slice_ok s" "\<not> Slice.lock s" "0 \<le> index" "index < int (len (Slice.Data s))"
  shows "\<exists>s'. Slice_Delete g z index s = Returned () s' \<and> Slice_ok s' \<and> \<not> Slice.lock s' \<and>
           Slice_elems s' = take (nat index) (Slice_elems s) @ drop (nat index + 1) (Slice_elems s)"
proof -
  from assms(1) have ok: "slice_ok (sheap s) (Slice.Data s)" by (simp add: Slice_ok_def)
  obtain h' d' where st: "delete_stmt g z (sheap s) (Slice.Data s) index = Some (h', d')"
      "slice_ok h' d'"
      "elems h' d' = take (nat index) (elems (sheap s) (Slice.Data s)) @
                     drop (nat index + 1) (elems (sheap s) (Slice.Data s))"
    using delete_stmt_spec [OF ok assms(3,4)] by blast
  show ?thesis
    using assms(2) st by (simp add: Slice_Delete_def Slice_unfold Slice_ok_def Slice_elems_def)
qed

section \<open>Properties of Slice\<close>

text \<open>The zero value is well formed, and \<open>Append\<close> and \<open>SafeInsert\<close> keep a sequence so.\<close>

lemma Slice_zero_ok: "Slice_ok (Slice_zero h) \<and> Slice_elems (Slice_zero h) = []"
  by (simp add: Slice_ok_def Slice_zero_def slice_ok_def nil_slice_def Slice_elems_def elems_def)

lemma Slice_Append_spec:
  assumes "Slice_ok s" "\<not> Slice.lock s"
  shows "\<exists>s'. Slice_Append g z v s = Returned () s' \<and> Slice_ok s' \<and> \<not> Slice.lock s' \<and>
           Slice_elems s' = Slice_elems s @ [v]"
proof -
  from assms(1) have ok: "slice_ok (sheap s) (Slice.Data s)" by (simp add: Slice_ok_def)
  obtain h' d' where ap: "append_go g z (sheap s) (Slice.Data s) [v] = (h', d')"
    by (cases "append_go g z (sheap s) (Slice.Data s) [v]") blast
  from append_go_spec [OF ok ap] ap assms(2) show ?thesis
    by (simp add: Slice_Append_def Slice_unfold Slice_ok_def Slice_elems_def)
qed

lemma Slice_SafeInsert_accepts:
  assumes "Slice_ok s" "\<not> Slice.lock s" "0 \<le> index" "index \<le> int (len (Slice.Data s))"
  shows "\<exists>s'. Slice_SafeInsert g z index v s = Returned True s' \<and> Slice_ok s' \<and>
           Slice_elems s' = take (nat index) (Slice_elems s) @ [v] @ drop (nat index) (Slice_elems s)"
proof -
  from assms(1) have ok: "slice_ok (sheap s) (Slice.Data s)" by (simp add: Slice_ok_def)
  obtain h' d' where st: "insert_stmt g z (sheap s) (Slice.Data s) index v = Some (h', d')"
      "slice_ok h' d'"
      "elems h' d' = take (nat index) (elems (sheap s) (Slice.Data s)) @ [v] @
                     drop (nat index) (elems (sheap s) (Slice.Data s))"
    using insert_stmt_spec [OF ok assms(3,4)] by blast
  show ?thesis
    using assms(2,3,4) st
    by (simp add: Slice_SafeInsert_def Slice_unfold Slice_ok_def Slice_elems_def)
qed


lemmas RWSlice_unfold =
  RWSlice_RLock_def RWSlice_RUnlock_def RWSlice_Lock_def RWSlice_Unlock_def
  rw_RLock_def rw_RUnlock_def rw_Lock_def rw_Unlock_def deferred_def

lemma RWSlice_Len_free:
  "rw_free (RWSlice.lock r) \<Longrightarrow> RWSlice_Len r = Returned (int (len (RWSlice.Data r))) r"
  by (simp add: RWSlice_Len_def RWSlice_unfold rw_free_def)

lemma RWSlice_Get_elems:
  "RWSlice_ok r \<Longrightarrow> rw_free (RWSlice.lock r) \<Longrightarrow> 0 \<le> j \<Longrightarrow> j < int (len (RWSlice.Data r)) \<Longrightarrow>
   RWSlice_Get j r = Returned (RWSlice_elems r ! nat j) r"
  by (simp add: RWSlice_Get_def RWSlice_unfold rw_free_def slice_index_def RWSlice_ok_def
      RWSlice_elems_def elems_nth)

lemma slice_assign_spec:
  assumes "slice_ok h d" "0 \<le> i" "i < int (len d)"
  shows "\<exists>h'. slice_assign h d i v = Some h' \<and> slice_ok h' d \<and>
           elems h' d = (elems h d)[nat i := v] \<and> h' ! arr d ! (off d + nat i) = v"
  using assms
  by (auto simp: slice_assign_def slice_ok_def elems_def take_update_swap drop_update_swap)

lemma slice_assign_panics:
  "i < 0 \<or> int (len d) \<le> i \<Longrightarrow> slice_assign h d i v = None"
  by (auto simp: slice_assign_def)

lemma nth_remove_before:
  "j < i \<Longrightarrow> i \<le> length xs \<Longrightarrow> (take i xs @ drop (i + 1) xs) ! j = xs ! j"
  by (simp add: nth_append)

lemma nth_remove_after:
  "i \<le> m \<Longrightarrow> i \<le> length xs \<Longrightarrow> m + 1 < length xs \<Longrightarrow>
   (take i xs @ drop (i + 1) xs) ! m = xs ! (m + 1)"
  by (simp add: nth_append min_def)

text \<open>
  C7. On a well-formed sequence whose lock is free, \<open>Delete(index)\<close> with
  \<open>0 <= index < Len()\<close> returns; \<open>Len()\<close> is then one less; the elements are those
  before \<open>index\<close> followed by those after it; so \<open>Get(j)\<close> returns the old element
  \<open>j\<close> for \<open>j < index\<close>, and \<open>Get(j - 1)\<close> returns the old element \<open>j\<close> for
  \<open>index < j < Len()\<close>.
\<close>

theorem Slice_Delete_shifts:
  assumes "Slice_ok s" "\<not> Slice.lock s" "0 \<le> index" "index < int (len (Slice.Data s))"
  shows "\<exists>s'. Slice_Delete g z index s = Returned () s' \<and>
           Slice_Len s' = Returned (int (len (Slice.Data s)) - 1) s' \<and>
           Slice_elems s' = take (nat index) (Slice_elems s) @ drop (nat index + 1) (Slice_elems s) \<and>
           (\<forall>j. 0 \<le> j \<and> j < index \<longrightarrow> Slice_Get j s' = Returned (Slice_elems s ! nat j) s') \<and>
           (\<forall>j. index < j \<and> j < int (len (Slice.Data s)) \<longrightarrow>
                 Slice_Get (j - 1) s' = Returned (Slice_elems s ! nat j) s')"
proof -
  obtain s' where s': "Slice_Delete g z index s = Returned () s'" "Slice_ok s'" "\<not> Slice.lock s'"
      "Slice_elems s' = take (nat index) (Slice_elems s) @ drop (nat index + 1) (Slice_elems s)"
    using Slice_Delete_spec [OF assms] by blast
  have n: "length (Slice_elems s) = len (Slice.Data s)"
    using assms(1) by (simp add: Slice_ok_def Slice_elems_def length_elems)
  have n': "length (Slice_elems s') = len (Slice.Data s')"
    using s'(2) by (simp add: Slice_ok_def Slice_elems_def length_elems)
  have k: "nat index < len (Slice.Data s)"
    using assms(3,4) by simp
  have "length (Slice_elems s') = len (Slice.Data s) - 1"
    unfolding s'(4) using n k by simp
  then have len': "int (len (Slice.Data s')) = int (len (Slice.Data s)) - 1"
    using n' k by simp
  have L: "Slice_Len s' = Returned (int (len (Slice.Data s)) - 1) s'"
    using Slice_Len_free [OF s'(3)] len' by simp
  have A: "Slice_Get j s' = Returned (Slice_elems s ! nat j) s'" if "0 \<le> j" "j < index" for j
  proof -
    have "Slice_Get j s' = Returned (Slice_elems s' ! nat j) s'"
      using that assms(4) len' by (intro Slice_Get_elems s') simp_all
    moreover have "Slice_elems s' ! nat j = Slice_elems s ! nat j"
    proof -
      have "nat j < nat index" "nat index \<le> length (Slice_elems s)"
        using that assms(4) n by simp_all
      then show ?thesis
        unfolding s'(4) by (rule nth_remove_before)
    qed
    ultimately show ?thesis by simp
  qed
  have B: "Slice_Get (j - 1) s' = Returned (Slice_elems s ! nat j) s'"
    if "index < j" "j < int (len (Slice.Data s))" for j
  proof -
    have "Slice_Get (j - 1) s' = Returned (Slice_elems s' ! nat (j - 1)) s'"
      using that assms(3) len' by (intro Slice_Get_elems s') simp_all
    moreover have "Slice_elems s' ! nat (j - 1) = Slice_elems s ! nat j"
    proof -
      have "nat index \<le> nat (j - 1)" "nat index \<le> length (Slice_elems s)"
          "nat (j - 1) + 1 < length (Slice_elems s)" "nat (j - 1) + 1 = nat j"
        using that assms(3) n by simp_all
      then show ?thesis
        unfolding s'(4) using nth_remove_after [of "nat index" "nat (j - 1)" "Slice_elems s"]
        by simp
    qed
    ultimately show ?thesis by simp
  qed
  from s'(1) L s'(4) A B show ?thesis by blast
qed


theorem Slice_Delete_shifts_witness:
  "Slice_ok \<lparr>sheap = [[10, 20, 30::int]], Data = \<lparr>arr = 0, off = 0, len = 3, cap = 3\<rparr>, lock = False\<rparr> \<and>
   \<not> Slice.lock \<lparr>sheap = [[10, 20, 30::int]], Data = \<lparr>arr = 0, off = 0, len = 3, cap = 3\<rparr>, lock = False\<rparr> \<and>
   (0::int) \<le> 1 \<and>
   (1::int) < int (len (Slice.Data \<lparr>sheap = [[10, 20, 30::int]], Data = \<lparr>arr = 0, off = 0, len = 3, cap = 3\<rparr>, lock = False\<rparr>)) \<and>
   (\<exists>s'. Slice_Delete (\<lambda>c n. 2 * c) 0 1
            \<lparr>sheap = [[10, 20, 30::int]], Data = \<lparr>arr = 0, off = 0, len = 3, cap = 3\<rparr>, lock = False\<rparr>
          = Returned () s' \<and>
        Slice_Len s' = Returned 2 s' \<and> Slice_elems s' = [10, 30] \<and>
        Slice_Get 0 s' = Returned 10 s' \<and> Slice_Get 1 s' = Returned 30 s')"
proof -
  let ?s = "\<lparr>sheap = [[10, 20, 30::int]], Data = \<lparr>arr = 0, off = 0, len = 3, cap = 3\<rparr>, lock = False\<rparr>"
  have h: "Slice_ok ?s" "\<not> Slice.lock ?s" "(0::int) \<le> 1" "(1::int) < int (len (Slice.Data ?s))"
    by (simp_all add: Slice_ok_def slice_ok_def)
  have e: "Slice_elems ?s = [10, 20, 30]"
    by (simp add: Slice_elems_def elems_def)
  from Slice_Delete_shifts [OF h, of "\<lambda>c n. 2 * c" 0]
  obtain s' where s': "Slice_Delete (\<lambda>c n. 2 * c) 0 1 ?s = Returned () s'"
      "Slice_Len s' = Returned (int (len (Slice.Data ?s)) - 1) s'"
      "Slice_elems s' = take (nat 1) (Slice_elems ?s) @ drop (nat 1 + 1) (Slice_elems ?s)"
      "\<forall>j. 0 \<le> j \<and> j < 1 \<longrightarrow> Slice_Get j s' = Returned (Slice_elems ?s ! nat j) s'"
      "\<forall>j. 1 < j \<and> j < int (len (Slice.Data ?s)) \<longrightarrow>
           Slice_Get (j - 1) s' = Returned (Slice_elems ?s ! nat j) s'"
    by blast
  from s'(4) [rule_format, of 0] have "Slice_Get 0 s' = Returned 10 s'"
    unfolding e by simp
  moreover from s'(5) [rule_format, of 2] have "Slice_Get 1 s' = Returned 30 s'"
    unfolding e by simp
  moreover have "Slice_Len s' = Returned 2 s'" "Slice_elems s' = [10, 30]"
    using s'(2,3) unfolding e by simp_all
  ultimately show ?thesis
    using h s'(1) by blast
qed

text \<open>
  \<open>SafeGet\<close> of the variant with the \<open>Mutex\<close>: outside \<open>[0, Len())\<close> the zero value
  and false, inside it the element and true; the state is as before.
\<close>

lemma Slice_SafeGet_spec:
  assumes "Slice_ok s" "\<not> Slice.lock s"
  shows "(index < 0 \<or> int (len (Slice.Data s)) \<le> index \<longrightarrow>
            Slice_SafeGet z index s = Returned (z, False) s) \<and>
         (0 \<le> index \<and> index < int (len (Slice.Data s)) \<longrightarrow>
            Slice_SafeGet z index s = Returned (Slice_elems s ! nat index, True) s)"
  using assms
  by (auto simp: Slice_SafeGet_def Slice_unfold slice_index_def Slice_ok_def Slice_elems_def
      elems_nth)

lemma RWSlice_SafeGet_panics:
  assumes "rw_free (RWSlice.lock r)" "index < 0 \<or> index = int (len (RWSlice.Data r))"
  shows "RWSlice_SafeGet z index r = Panicked IndexOutOfRange r"
  using assms
  by (auto simp: RWSlice_SafeGet_def RWSlice_unfold rw_free_def slice_index_def)

text \<open>
  C1. In the variant with the \<open>RWMutex\<close> (slice.go, lines 184 to 193), \<open>SafeGet\<close>
  rejects only \<open>index > len(s.Data)\<close>. On the sequence 10, 20, 30, whose \<open>Len()\<close> is 3,
  \<open>SafeGet(3)\<close> and \<open>SafeGet(-1)\<close> panic with an index out of range. The variant with
  the \<open>Mutex\<close> (lines 74 to 83) does what the property says: \<open>Slice_SafeGet_spec\<close>.
\<close>

theorem RWSlice_SafeGet_faults_example:
  "RWSlice_Len \<lparr>rheap = [[10, 20, 30::int]], Data = \<lparr>arr = 0, off = 0, len = 3, cap = 3\<rparr>,
                lock = \<lparr>readers = 0, writer = False\<rparr>\<rparr>
     = Returned 3 \<lparr>rheap = [[10, 20, 30]], Data = \<lparr>arr = 0, off = 0, len = 3, cap = 3\<rparr>,
                   lock = \<lparr>readers = 0, writer = False\<rparr>\<rparr> \<and>
   RWSlice_SafeGet 0 3 \<lparr>rheap = [[10, 20, 30::int]], Data = \<lparr>arr = 0, off = 0, len = 3, cap = 3\<rparr>,
                lock = \<lparr>readers = 0, writer = False\<rparr>\<rparr>
     = Panicked IndexOutOfRange
         \<lparr>rheap = [[10, 20, 30]], Data = \<lparr>arr = 0, off = 0, len = 3, cap = 3\<rparr>,
          lock = \<lparr>readers = 0, writer = False\<rparr>\<rparr> \<and>
   RWSlice_SafeGet 0 (- 1) \<lparr>rheap = [[10, 20, 30::int]], Data = \<lparr>arr = 0, off = 0, len = 3, cap = 3\<rparr>,
                lock = \<lparr>readers = 0, writer = False\<rparr>\<rparr>
     = Panicked IndexOutOfRange
         \<lparr>rheap = [[10, 20, 30]], Data = \<lparr>arr = 0, off = 0, len = 3, cap = 3\<rparr>,
          lock = \<lparr>readers = 0, writer = False\<rparr>\<rparr>"
  by (simp add: RWSlice_Len_def RWSlice_SafeGet_def RWSlice_unfold slice_index_def)

lemma Slice_Safe_rejects:
  "index < 0 \<or> int (len (Slice.Data s)) < index \<Longrightarrow>
     Slice_SafeInsert g z index v s = Returned False s"
  "\<not> Slice.lock s \<Longrightarrow> index < 0 \<or> int (len (Slice.Data s)) \<le> index \<Longrightarrow>
     Slice_SafeReplace index v s = Returned False s"
  "index < 0 \<or> int (len (Slice.Data s)) \<le> index \<Longrightarrow>
     Slice_SafeDelete g z index s = Returned False s"
  by (auto simp: Slice_SafeInsert_def Slice_SafeReplace_def Slice_SafeDelete_def Slice_unfold)

text \<open>
  C4. In the variant with the \<open>RWMutex\<close> (slice.go, lines 156 to 168), \<open>SafeInsert\<close>
  rejects only \<open>index >= len(s.Data)\<close>. On the sequence 10, 20, 30, \<open>SafeInsert(-1, 99)\<close>
  panics with an index out of range, and since its \<open>Unlock\<close> is not deferred the write
  lock stays held. The variant with the \<open>Mutex\<close> rejects every invalid index and leaves
  the state as it is: \<open>Slice_Safe_rejects\<close>.
\<close>

theorem RWSlice_SafeInsert_negative_example:
  "RWSlice_SafeInsert (- 1) 99
      \<lparr>rheap = [[10, 20, 30::int]], Data = \<lparr>arr = 0, off = 0, len = 3, cap = 3\<rparr>,
       lock = \<lparr>readers = 0, writer = False\<rparr>\<rparr>
     = Panicked IndexOutOfRange
         \<lparr>rheap = [[10, 20, 30]], Data = \<lparr>arr = 0, off = 0, len = 3, cap = 3\<rparr>,
          lock = \<lparr>readers = 0, writer = True\<rparr>\<rparr>"
  by (simp add: RWSlice_SafeInsert_def RWSlice_unfold slice_assign_def)

text \<open>
  When \<open>SafeInsert\<close> of the variant with the \<open>RWMutex\<close> rejects an index it returns
  with the read lock held, and the next call that needs the write lock never returns.
\<close>

lemma RWSlice_SafeInsert_keeps_read_lock:
  "RWSlice_SafeInsert 5 99
      \<lparr>rheap = [[10, 20, 30::int]], Data = \<lparr>arr = 0, off = 0, len = 3, cap = 3\<rparr>,
       lock = \<lparr>readers = 0, writer = False\<rparr>\<rparr>
     = Returned False
         \<lparr>rheap = [[10, 20, 30]], Data = \<lparr>arr = 0, off = 0, len = 3, cap = 3\<rparr>,
          lock = \<lparr>readers = 1, writer = False\<rparr>\<rparr> \<and>
   RWSlice_Insert 0 99
      \<lparr>rheap = [[10, 20, 30::int]], Data = \<lparr>arr = 0, off = 0, len = 3, cap = 3\<rparr>,
       lock = \<lparr>readers = 1, writer = False\<rparr>\<rparr> = Blocked"
  by (simp add: RWSlice_SafeInsert_def RWSlice_Insert_def RWSlice_unfold)

text \<open>
  C3, as stated, fails for the \<open>Insert\<close> of the variant with the \<open>RWMutex\<close> (slice.go,
  lines 149 to 154, and map.go, lines 241 to 246): on the sequence 10, 20, \<open>Insert(0, 99)\<close>
  gives 99, 20 and not 99, 10, 20; \<open>Len()\<close> stays 2; the element 10 is overwritten; and
  \<open>Insert(2, 99)\<close>, at \<open>index = Len()\<close>, panics.
\<close>

theorem RWSlice_Insert_overwrites_example:
  "RWSlice_elems \<lparr>rheap = [[10, 20::int]], Data = \<lparr>arr = 0, off = 0, len = 2, cap = 2\<rparr>,
                  lock = \<lparr>readers = 0, writer = False\<rparr>\<rparr> = [10, 20] \<and>
   RWSlice_Insert 0 99 \<lparr>rheap = [[10, 20::int]], Data = \<lparr>arr = 0, off = 0, len = 2, cap = 2\<rparr>,
                  lock = \<lparr>readers = 0, writer = False\<rparr>\<rparr>
     = Returned () \<lparr>rheap = [[99, 20]], Data = \<lparr>arr = 0, off = 0, len = 2, cap = 2\<rparr>,
                    lock = \<lparr>readers = 0, writer = False\<rparr>\<rparr> \<and>
   RWSlice_elems \<lparr>rheap = [[99, 20::int]], Data = \<lparr>arr = 0, off = 0, len = 2, cap = 2\<rparr>,
                  lock = \<lparr>readers = 0, writer = False\<rparr>\<rparr> = [99, 20] \<and>
   RWSlice_elems \<lparr>rheap = [[99, 20::int]], Data = \<lparr>arr = 0, off = 0, len = 2, cap = 2\<rparr>,
                  lock = \<lparr>readers = 0, writer = False\<rparr>\<rparr> \<noteq> [99, 10, 20] \<and>
   RWSlice_Len \<lparr>rheap = [[99, 20::int]], Data = \<lparr>arr = 0, off = 0, len = 2, cap = 2\<rparr>,
                  lock = \<lparr>readers = 0, writer = False\<rparr>\<rparr>
     = Returned 2 \<lparr>rheap = [[99, 20]], Data = \<lparr>arr = 0, off = 0, len = 2, cap = 2\<rparr>,
                   lock = \<lparr>readers = 0, writer = False\<rparr>\<rparr> \<and>
   RWSlice_Insert 2 99 \<lparr>rheap = [[10, 20::int]], Data = \<lparr>arr = 0, off = 0, len = 2, cap = 2\<rparr>,
                  lock = \<lparr>readers = 0, writer = False\<rparr>\<rparr>
     = Panicked IndexOutOfRange
         \<lparr>rheap = [[10, 20]], Data = \<lparr>arr = 0, off = 0, len = 2, cap = 2\<rparr>,
          lock = \<lparr>readers = 0, writer = False\<rparr>\<rparr>"
  by (simp add: RWSlice_elems_def elems_def RWSlice_Insert_def RWSlice_Len_def RWSlice_unfold
      slice_assign_def)

lemma RWSlice_Insert_stores:
  assumes "RWSlice_ok r" "rw_free (RWSlice.lock r)" "n < len (RWSlice.Data r)"
  shows "\<exists>r'. RWSlice_Insert n v r = Returned () r' \<and> RWSlice_ok r' \<and>
           RWSlice.lock r' = RWSlice.lock r \<and> RWSlice.Data r' = RWSlice.Data r \<and>
           RWSlice_elems r' = (RWSlice_elems r)[n := v]"
proof -
  from assms(1) have ok: "slice_ok (rheap r) (RWSlice.Data r)" by (simp add: RWSlice_ok_def)
  obtain h' where h': "slice_assign (rheap r) (RWSlice.Data r) (int n) v = Some h'"
      "slice_ok h' (RWSlice.Data r)"
      "elems h' (RWSlice.Data r) = (elems (rheap r) (RWSlice.Data r))[nat (int n) := v]"
    using slice_assign_spec [OF ok, of "int n" v] assms(3) by auto
  show ?thesis
    using assms(2) h'
    by (simp add: RWSlice_Insert_def RWSlice_unfold rw_free_def RWSlice_ok_def RWSlice_elems_def)
qed

lemma RWSlice_Insert_panics:
  assumes "rw_free (RWSlice.lock r)" "len (RWSlice.Data r) \<le> n"
  shows "RWSlice_Insert n v r = Panicked IndexOutOfRange r"
  using assms
  by (simp add: RWSlice_Insert_def RWSlice_unfold rw_free_def slice_assign_def)

text \<open>
  C3, amended. In the variant with the \<open>Mutex\<close> (slice.go, lines 20 to 25), on a
  well-formed sequence whose lock is free and for every index in \<open>[0, Len()]\<close>,
  \<open>Insert(index, value)\<close> returns; \<open>Len()\<close> is then one more; the elements are those
  before \<open>index\<close>, the value, and those from \<open>index\<close> on. In the variant with the
  \<open>RWMutex\<close>, \<open>Insert(index, value)\<close> with \<open>index < Len()\<close> stores the value at
  \<open>index\<close> and leaves \<open>Len()\<close> and the other elements as they are, and with
  \<open>index >= Len()\<close> it panics with an index out of range.
\<close>

theorem Insert_by_variant:
  assumes "Slice_ok s" "\<not> Slice.lock s" "0 \<le> index" "index \<le> int (len (Slice.Data s))"
    and "RWSlice_ok r" "rw_free (RWSlice.lock r)"
  shows "(\<exists>s'. Slice_Insert g z index v s = Returned () s' \<and>
             Slice_Len s' = Returned (int (len (Slice.Data s)) + 1) s' \<and>
             Slice_elems s' =
               take (nat index) (Slice_elems s) @ [v] @ drop (nat index) (Slice_elems s)) \<and>
         (n < len (RWSlice.Data r) \<longrightarrow>
            (\<exists>r'. RWSlice_Insert n v r = Returned () r' \<and>
                  RWSlice_Len r' = Returned (int (len (RWSlice.Data r))) r' \<and>
                  RWSlice_elems r' = (RWSlice_elems r)[n := v])) \<and>
         (len (RWSlice.Data r) \<le> n' \<longrightarrow> RWSlice_Insert n' v r = Panicked IndexOutOfRange r)"
proof (intro conjI impI)
  obtain s' where s': "Slice_Insert g z index v s = Returned () s'" "Slice_ok s'" "\<not> Slice.lock s'"
      "Slice_elems s' = take (nat index) (Slice_elems s) @ [v] @ drop (nat index) (Slice_elems s)"
    using Slice_Insert_spec [OF assms(1-4)] by blast
  have n: "length (Slice_elems s) = len (Slice.Data s)"
    using assms(1) by (simp add: Slice_ok_def Slice_elems_def length_elems)
  have n': "length (Slice_elems s') = len (Slice.Data s')"
    using s'(2) by (simp add: Slice_ok_def Slice_elems_def length_elems)
  have "length (Slice_elems s') = len (Slice.Data s) + 1"
    unfolding s'(4) using n assms(3,4) by simp
  then have "Slice_Len s' = Returned (int (len (Slice.Data s)) + 1) s'"
    using Slice_Len_free [OF s'(3)] n' by simp
  with s'(1,4)
  show "\<exists>s'. Slice_Insert g z index v s = Returned () s' \<and>
             Slice_Len s' = Returned (int (len (Slice.Data s)) + 1) s' \<and>
             Slice_elems s' =
               take (nat index) (Slice_elems s) @ [v] @ drop (nat index) (Slice_elems s)"
    by blast
next
  assume "n < len (RWSlice.Data r)"
  from RWSlice_Insert_stores [OF assms(5,6) this, of v]
  obtain r' where r': "RWSlice_Insert n v r = Returned () r'"
      "RWSlice.lock r' = RWSlice.lock r" "RWSlice.Data r' = RWSlice.Data r"
      "RWSlice_elems r' = (RWSlice_elems r)[n := v]"
    by blast
  have "RWSlice_Len r' = Returned (int (len (RWSlice.Data r))) r'"
    using RWSlice_Len_free [of r'] assms(6) r'(2,3) by simp
  with r'(1,4)
  show "\<exists>r'. RWSlice_Insert n v r = Returned () r' \<and>
             RWSlice_Len r' = Returned (int (len (RWSlice.Data r))) r' \<and>
             RWSlice_elems r' = (RWSlice_elems r)[n := v]"
    by blast
next
  assume "len (RWSlice.Data r) \<le> n'"
  with assms(6) show "RWSlice_Insert n' v r = Panicked IndexOutOfRange r"
    by (rule RWSlice_Insert_panics)
qed


theorem Insert_by_variant_witness:
  "Slice_ok \<lparr>sheap = [[10, 20::int]], Data = \<lparr>arr = 0, off = 0, len = 2, cap = 2\<rparr>, lock = False\<rparr> \<and>
   \<not> Slice.lock \<lparr>sheap = [[10, 20::int]], Data = \<lparr>arr = 0, off = 0, len = 2, cap = 2\<rparr>, lock = False\<rparr> \<and>
   (0::int) \<le> 1 \<and>
   (1::int) \<le> int (len (Slice.Data \<lparr>sheap = [[10, 20::int]], Data = \<lparr>arr = 0, off = 0, len = 2, cap = 2\<rparr>, lock = False\<rparr>)) \<and>
   RWSlice_ok \<lparr>rheap = [[10, 20::int]], Data = \<lparr>arr = 0, off = 0, len = 2, cap = 2\<rparr>,
               lock = \<lparr>readers = 0, writer = False\<rparr>\<rparr> \<and>
   rw_free (RWSlice.lock \<lparr>rheap = [[10, 20::int]], Data = \<lparr>arr = 0, off = 0, len = 2, cap = 2\<rparr>,
               lock = \<lparr>readers = 0, writer = False\<rparr>\<rparr>) \<and>
   (\<exists>s'. Slice_Insert (\<lambda>c n. 2 * c) 0 1 99
            \<lparr>sheap = [[10, 20::int]], Data = \<lparr>arr = 0, off = 0, len = 2, cap = 2\<rparr>, lock = False\<rparr>
          = Returned () s' \<and>
        Slice_Len s' = Returned 3 s' \<and> Slice_elems s' = [10, 99, 20]) \<and>
   (\<exists>r'. RWSlice_Insert 1 99
            \<lparr>rheap = [[10, 20::int]], Data = \<lparr>arr = 0, off = 0, len = 2, cap = 2\<rparr>,
             lock = \<lparr>readers = 0, writer = False\<rparr>\<rparr>
          = Returned () r' \<and>
        RWSlice_Len r' = Returned 2 r' \<and> RWSlice_elems r' = [10, 99]) \<and>
   RWSlice_Insert 2 99
      \<lparr>rheap = [[10, 20::int]], Data = \<lparr>arr = 0, off = 0, len = 2, cap = 2\<rparr>,
       lock = \<lparr>readers = 0, writer = False\<rparr>\<rparr>
     = Panicked IndexOutOfRange
         \<lparr>rheap = [[10, 20]], Data = \<lparr>arr = 0, off = 0, len = 2, cap = 2\<rparr>,
          lock = \<lparr>readers = 0, writer = False\<rparr>\<rparr>"
proof -
  let ?s = "\<lparr>sheap = [[10, 20::int]], Data = \<lparr>arr = 0, off = 0, len = 2, cap = 2\<rparr>, lock = False\<rparr>"
  let ?r = "\<lparr>rheap = [[10, 20::int]], Data = \<lparr>arr = 0, off = 0, len = 2, cap = 2\<rparr>,
             lock = \<lparr>readers = 0, writer = False\<rparr>\<rparr>"
  have h: "Slice_ok ?s" "\<not> Slice.lock ?s" "(0::int) \<le> 1" "(1::int) \<le> int (len (Slice.Data ?s))"
      "RWSlice_ok ?r" "rw_free (RWSlice.lock ?r)"
    by (simp_all add: Slice_ok_def RWSlice_ok_def slice_ok_def rw_free_def)
  have e: "Slice_elems ?s = [10, 20]" "RWSlice_elems ?r = [10, 20]"
    by (simp_all add: Slice_elems_def RWSlice_elems_def elems_def)
  note t = Insert_by_variant [OF h, of "\<lambda>c n. 2 * c" 0 99 1 2]
  from t show ?thesis
    unfolding e using h by simp
qed

lemma Slice_GetAll_free: "\<not> Slice.lock s \<Longrightarrow> Slice_GetAll s = Returned (Slice.Data s) s"
  by (simp add: Slice_GetAll_def Slice_unfold)

lemma RWSlice_GetAll_free:
  "rw_free (RWSlice.lock r) \<Longrightarrow> RWSlice_GetAll r = Returned (RWSlice.Data r) r"
  by (simp add: RWSlice_GetAll_def RWSlice_unfold rw_free_def)

text \<open>
  C9. In both variants, on a well-formed sequence whose lock is free, \<open>GetAll\<close> returns
  the header \<open>s.Data\<close> itself; and for every index in \<open>[0, Len())\<close>, an assignment of
  \<open>v\<close> to that index of the returned slice succeeds, after which \<open>Get\<close> at the same
  index of the guarded sequence returns \<open>v\<close>.
\<close>

theorem GetAll_shares_backing_array:
  assumes "Slice_ok s" "\<not> Slice.lock s" "0 \<le> i" "i < int (len (Slice.Data s))"
    and "RWSlice_ok r" "rw_free (RWSlice.lock r)" "0 \<le> k" "k < int (len (RWSlice.Data r))"
  shows "(\<exists>h'. Slice_GetAll s = Returned (Slice.Data s) s \<and>
              slice_assign (sheap s) (Slice.Data s) i v = Some h' \<and>
              Slice_Get i (s\<lparr>sheap := h'\<rparr>) = Returned v (s\<lparr>sheap := h'\<rparr>)) \<and>
         (\<exists>h'. RWSlice_GetAll r = Returned (RWSlice.Data r) r \<and>
              slice_assign (rheap r) (RWSlice.Data r) k v = Some h' \<and>
              RWSlice_Get k (r\<lparr>rheap := h'\<rparr>) = Returned v (r\<lparr>rheap := h'\<rparr>))"
proof
  from assms(1) have ok: "slice_ok (sheap s) (Slice.Data s)" by (simp add: Slice_ok_def)
  obtain h' where h': "slice_assign (sheap s) (Slice.Data s) i v = Some h'"
      "h' ! arr (Slice.Data s) ! (off (Slice.Data s) + nat i) = v"
    using slice_assign_spec [OF ok assms(3,4), of v] by blast
  have "Slice_Get i (s\<lparr>sheap := h'\<rparr>) = Returned v (s\<lparr>sheap := h'\<rparr>)"
    using assms(2,3,4) h'(2) by (simp add: Slice_Get_def Slice_unfold slice_index_def)
  with h'(1) Slice_GetAll_free [OF assms(2)]
  show "\<exists>h'. Slice_GetAll s = Returned (Slice.Data s) s \<and>
              slice_assign (sheap s) (Slice.Data s) i v = Some h' \<and>
              Slice_Get i (s\<lparr>sheap := h'\<rparr>) = Returned v (s\<lparr>sheap := h'\<rparr>)"
    by blast
next
  from assms(5) have ok: "slice_ok (rheap r) (RWSlice.Data r)" by (simp add: RWSlice_ok_def)
  obtain h' where h': "slice_assign (rheap r) (RWSlice.Data r) k v = Some h'"
      "h' ! arr (RWSlice.Data r) ! (off (RWSlice.Data r) + nat k) = v"
    using slice_assign_spec [OF ok assms(7,8), of v] by blast
  have "RWSlice_Get k (r\<lparr>rheap := h'\<rparr>) = Returned v (r\<lparr>rheap := h'\<rparr>)"
    using assms(6,7,8) h'(2)
    by (simp add: RWSlice_Get_def RWSlice_unfold rw_free_def slice_index_def)
  with h'(1) RWSlice_GetAll_free [OF assms(6)]
  show "\<exists>h'. RWSlice_GetAll r = Returned (RWSlice.Data r) r \<and>
              slice_assign (rheap r) (RWSlice.Data r) k v = Some h' \<and>
              RWSlice_Get k (r\<lparr>rheap := h'\<rparr>) = Returned v (r\<lparr>rheap := h'\<rparr>)"
    by blast
qed

theorem GetAll_shares_backing_array_witness:
  "Slice_ok \<lparr>sheap = [[10, 20::int]], Data = \<lparr>arr = 0, off = 0, len = 2, cap = 2\<rparr>, lock = False\<rparr> \<and>
   \<not> Slice.lock \<lparr>sheap = [[10, 20::int]], Data = \<lparr>arr = 0, off = 0, len = 2, cap = 2\<rparr>, lock = False\<rparr> \<and>
   (0::int) \<le> 1 \<and>
   (1::int) < int (len (Slice.Data \<lparr>sheap = [[10, 20::int]], Data = \<lparr>arr = 0, off = 0, len = 2, cap = 2\<rparr>, lock = False\<rparr>)) \<and>
   RWSlice_ok \<lparr>rheap = [[10, 20::int]], Data = \<lparr>arr = 0, off = 0, len = 2, cap = 2\<rparr>,
               lock = \<lparr>readers = 0, writer = False\<rparr>\<rparr> \<and>
   rw_free (RWSlice.lock \<lparr>rheap = [[10, 20::int]], Data = \<lparr>arr = 0, off = 0, len = 2, cap = 2\<rparr>,
               lock = \<lparr>readers = 0, writer = False\<rparr>\<rparr>) \<and>
   Slice_Get 1 \<lparr>sheap = [[10, 20::int]], Data = \<lparr>arr = 0, off = 0, len = 2, cap = 2\<rparr>, lock = False\<rparr>
     = Returned 20 \<lparr>sheap = [[10, 20]], Data = \<lparr>arr = 0, off = 0, len = 2, cap = 2\<rparr>, lock = False\<rparr> \<and>
   Slice_GetAll \<lparr>sheap = [[10, 20::int]], Data = \<lparr>arr = 0, off = 0, len = 2, cap = 2\<rparr>, lock = False\<rparr>
     = Returned \<lparr>arr = 0, off = 0, len = 2, cap = 2\<rparr>
         \<lparr>sheap = [[10, 20]], Data = \<lparr>arr = 0, off = 0, len = 2, cap = 2\<rparr>, lock = False\<rparr> \<and>
   slice_assign [[10, 20::int]] \<lparr>arr = 0, off = 0, len = 2, cap = 2\<rparr> 1 77 = Some [[10, 77]] \<and>
   Slice_Get 1 \<lparr>sheap = [[10, 77::int]], Data = \<lparr>arr = 0, off = 0, len = 2, cap = 2\<rparr>, lock = False\<rparr>
     = Returned 77 \<lparr>sheap = [[10, 77]], Data = \<lparr>arr = 0, off = 0, len = 2, cap = 2\<rparr>, lock = False\<rparr> \<and>
   RWSlice_GetAll \<lparr>rheap = [[10, 20::int]], Data = \<lparr>arr = 0, off = 0, len = 2, cap = 2\<rparr>,
               lock = \<lparr>readers = 0, writer = False\<rparr>\<rparr>
     = Returned \<lparr>arr = 0, off = 0, len = 2, cap = 2\<rparr>
         \<lparr>rheap = [[10, 20]], Data = \<lparr>arr = 0, off = 0, len = 2, cap = 2\<rparr>,
          lock = \<lparr>readers = 0, writer = False\<rparr>\<rparr> \<and>
   RWSlice_Get 1 \<lparr>rheap = [[10, 77::int]], Data = \<lparr>arr = 0, off = 0, len = 2, cap = 2\<rparr>,
               lock = \<lparr>readers = 0, writer = False\<rparr>\<rparr>
     = Returned 77 \<lparr>rheap = [[10, 77]], Data = \<lparr>arr = 0, off = 0, len = 2, cap = 2\<rparr>,
                    lock = \<lparr>readers = 0, writer = False\<rparr>\<rparr>"
proof -
  let ?s = "\<lparr>sheap = [[10, 20::int]], Data = \<lparr>arr = 0, off = 0, len = 2, cap = 2\<rparr>, lock = False\<rparr>"
  let ?r = "\<lparr>rheap = [[10, 20::int]], Data = \<lparr>arr = 0, off = 0, len = 2, cap = 2\<rparr>,
             lock = \<lparr>readers = 0, writer = False\<rparr>\<rparr>"
  have h: "Slice_ok ?s" "\<not> Slice.lock ?s" "(0::int) \<le> 1" "(1::int) < int (len (Slice.Data ?s))"
      "RWSlice_ok ?r" "rw_free (RWSlice.lock ?r)" "(0::int) \<le> 1"
      "(1::int) < int (len (RWSlice.Data ?r))"
    by (simp_all add: Slice_ok_def RWSlice_ok_def slice_ok_def rw_free_def)
  have a: "slice_assign [[10, 20::int]] \<lparr>arr = 0, off = 0, len = 2, cap = 2\<rparr> 1 77 = Some [[10, 77]]"
    by (simp add: slice_assign_def)
  have g: "Slice_Get 1 ?s = Returned 20 ?s"
    by (simp add: Slice_Get_def Slice_unfold slice_index_def)
  from GetAll_shares_backing_array [OF h, of 77] show ?thesis
    using h a g by simp
qed

end
